theory Spec2Isabelle
  imports Complex_Main "HOL-Library.Product_Lexorder" "HOL-Library.Multiset"
begin

section \<open>SpikeGeneratorGroup: schedule validation and playback index\<close>

text \<open>
  A shallow embedding of \<^verbatim>\<open>src/brian2/input/spikegeneratorgroup.py\<close>.
  Spike times, the period and the timestep are numpy float64 values in the source; here
  they are real numbers with exact arithmetic, so rounding is outside the model.
  Integer arrays keep their machine width where the source fixes one
  (\<^verbatim>\<open>dtype=np.int32\<close> for the time bins of the collision check).
  An exception is an outcome \<open>Raised e\<close>; every function that can raise returns the object
  as the exception leaves it, together with the outcome.
\<close>

subsection \<open>Values\<close>

text \<open>The period is a float: a finite number of seconds or \<^verbatim>\<open>np.inf\<close>.\<close>

datatype period = Finite_period real | Inf_period

text \<open>\<^verbatim>\<open>period < x\<close> and \<^verbatim>\<open>period <= x\<close> for a finite \<open>x\<close>.\<close>

fun period_less :: "period \<Rightarrow> real \<Rightarrow> bool" where
  "period_less (Finite_period p) x = (p < x)"
| "period_less Inf_period x = False"

fun period_le :: "period \<Rightarrow> real \<Rightarrow> bool" where
  "period_le (Finite_period p) x = (p \<le> x)"
| "period_le Inf_period x = False"

text \<open>
  The exceptions of the source, one constructor per \<^verbatim>\<open>raise\<close>:
  \<^item> \<open>BadN\<close>: TypeError, \<^verbatim>\<open>N has to be an integer >=1\<close> (line 94);
  \<^item> \<open>LengthMismatch\<close>, \<open>NegativePeriod\<close>, \<open>PeriodNotAboveMax\<close>, \<open>NegativeTime\<close>,
    \<open>IndexOutOfRange\<close>: the five ValueErrors of \<^verbatim>\<open>_check_args\<close> (lines 251-262);
  \<^item> \<open>PeriodBelowDt\<close>: ValueError of \<^verbatim>\<open>before_run\<close> (line 151);
  \<^item> \<open>PeriodNotMultiple\<close>: NotImplementedError of \<^verbatim>\<open>before_run\<close> (line 165);
  \<^item> \<open>SpikeCollision\<close>: ValueError of \<^verbatim>\<open>before_run\<close> (line 199);
  \<^item> \<open>DivisionError\<close>: the arithmetic error of \<^verbatim>\<open>int(1000. / period)\<close> at period 0.
\<close>

datatype error =
    BadN
  | LengthMismatch | NegativePeriod | PeriodNotAboveMax | NegativeTime | IndexOutOfRange
  | PeriodBelowDt | PeriodNotMultiple
  | SpikeCollision
  | DivisionError

text \<open>The names the specification gives to these exceptions.\<close>

datatype error_class =
  ConstructionError | ArgumentError | PeriodAlignmentError | CollisionError | OtherError

fun spec_class :: "error \<Rightarrow> error_class" where
  "spec_class BadN = ConstructionError"
| "spec_class LengthMismatch = ArgumentError"
| "spec_class NegativePeriod = ArgumentError"
| "spec_class PeriodNotAboveMax = ArgumentError"
| "spec_class NegativeTime = ArgumentError"
| "spec_class IndexOutOfRange = ArgumentError"
| "spec_class PeriodBelowDt = PeriodAlignmentError"
| "spec_class PeriodNotMultiple = PeriodAlignmentError"
| "spec_class SpikeCollision = CollisionError"
| "spec_class DivisionError = OtherError"

datatype 'a outcome = Raised error | Returned 'a

text \<open>
  The object. \<open>var_\<close> fields are the entries of \<^verbatim>\<open>self.variables\<close> (what the stepping
  runtime reads); \<open>self_neuron_index\<close> and \<open>self_spike_time\<close> are the attributes
  \<^verbatim>\<open>self._neuron_index\<close> and \<^verbatim>\<open>self._spike_time\<close>; \<open>spikes_changed\<close> is the dirty flag
  \<^verbatim>\<open>self._spikes_changed\<close>; \<open>previous_dt\<close> is \<^verbatim>\<open>self._previous_dt\<close> (\<open>None\<close> as in
  Python); \<open>warnings\<close> counts the calls of \<^verbatim>\<open>logger.warn\<close>.
\<close>

record sgg =
  var_N :: int
  var_period :: period
  var_spike_number :: "nat list"
  var_neuron_index :: "int list"
  var_spike_time :: "real list"
  var_lastindex :: nat
  self_neuron_index :: "int list"
  self_spike_time :: "real list"
  spikes_changed :: bool
  previous_dt :: "real option"
  warnings :: nat

subsection \<open>numpy helpers\<close>

text \<open>\<^verbatim>\<open>np.max\<close> and \<^verbatim>\<open>np.min\<close>; the source calls them on non-empty arrays only.\<close>

definition amax :: "'a::linorder list \<Rightarrow> 'a" where
  "amax xs = fold max (tl xs) (hd xs)"

definition amin :: "'a::linorder list \<Rightarrow> 'a" where
  "amin xs = fold min (tl xs) (hd xs)"

text \<open>
  \<^verbatim>\<open>np.lexsort((indices, times))\<close>: the stable sort of the positions, the last key
  (the times) first, then \<open>indices\<close>.
\<close>

definition lexsort :: "int list \<Rightarrow> real list \<Rightarrow> nat list" where
  "lexsort indices tms = sort_key (\<lambda>k. (tms ! k, indices ! k)) [0..<length tms]"

text \<open>\<^verbatim>\<open>a[I]\<close> for an index array \<open>I\<close> of positions of \<open>a\<close>.\<close>

definition take_at :: "'a list \<Rightarrow> nat list \<Rightarrow> 'a list" where
  "take_at a I = map (\<lambda>k. a ! k) I"

text \<open>\<^verbatim>\<open>int(x)\<close> of a float: truncation towards zero.\<close>

definition trunc :: "real \<Rightarrow> int" where
  "trunc x = (if 0 \<le> x then \<lfloor>x\<rfloor> else \<lceil>x\<rceil>)"

text \<open>
  \<^verbatim>\<open>np.asarray(x, dtype=np.int32)\<close> of a float: truncation towards zero when the result
  is an int32. Outside that range the conversion's result depends on the platform and is
  some int32 all the same; it is \<open>None\<close> here.
\<close>

definition astype_int32 :: "real \<Rightarrow> int option" where
  "astype_int32 x = (if - (2 ^ 31) \<le> trunc x \<and> trunc x < 2 ^ 31 then Some (trunc x) else None)"

text \<open>\<^verbatim>\<open>a % b\<close> on numpy integers: the sign of the divisor, and 0 for a zero divisor.\<close>

definition np_mod :: "int \<Rightarrow> int \<Rightarrow> int" where
  "np_mod a b = (if b = 0 then 0 else a mod b)"

text \<open>\<^verbatim>\<open>np.diff(a) == 0\<close>: one truth value per adjacent pair.\<close>

definition diff_is_zero :: "'a list \<Rightarrow> bool list" where
  "diff_is_zero a = map (\<lambda>(x, y). y = x) (zip a (tl a))"

text \<open>
  Modelled from the spec: \<^verbatim>\<open>timestep\<close> of \<^verbatim>\<open>brian2.core.functions\<close> is imported by the
  source and is not part of it. The specification's TimestepDiscretizer is
  \<^verbatim>\<open>binIndex(time, dt) = floor((time + eps*dt) / dt)\<close> with \<^verbatim>\<open>eps = 1e-3\<close>.
\<close>

definition timestep :: "real \<Rightarrow> real \<Rightarrow> int" where
  "timestep t dt = \<lfloor>(t + 1 / 1000 * dt) / dt\<rfloor>"

subsection \<open>\<^verbatim>\<open>_check_args\<close> (lines 248-281)\<close>

text \<open>
  Every \<^verbatim>\<open>raise\<close> comes before the first assignment to \<^verbatim>\<open>self\<close>, so the object
  returned with \<open>Raised\<close> is the one passed in.
\<close>

definition check_args ::
  "sgg \<Rightarrow> int list \<Rightarrow> real list \<Rightarrow> period \<Rightarrow> int \<Rightarrow> bool \<Rightarrow> sgg \<times> (int list \<times> real list) outcome"
where
  "check_args self indices tms period N is_sorted =
    (if length indices \<noteq> length tms then (self, Raised LengthMismatch)
     else if period_less period 0 then (self, Raised NegativePeriod)
     else if tms \<noteq> [] \<and> period_le period (amax tms) then (self, Raised PeriodNotAboveMax)
     else if tms \<noteq> [] \<and> amin tms < 0 then (self, Raised NegativeTime)
     else if indices \<noteq> [] \<and> (amin indices < 0 \<or> amax indices \<ge> N)
       then (self, Raised IndexOutOfRange)
     else
       let I = lexsort indices tms;
           indices' = (if is_sorted then indices else take_at indices I);
           tms' = (if is_sorted then tms else take_at tms I)
       in (self\<lparr>self_neuron_index := indices', self_spike_time := tms',
                spikes_changed := True\<rparr>,
           Returned (indices', tms')))"

subsection \<open>\<^verbatim>\<open>__init__\<close> (lines 71-143)\<close>

text \<open>
  \<open>N\<close> is an integer here, so of the test \<^verbatim>\<open>N < 1 or int(N) != N\<close> only \<open>N < 1\<close> is
  left. A constructor that raises leaves no object.
\<close>

definition sgg_init :: "int \<Rightarrow> int list \<Rightarrow> real list \<Rightarrow> period \<Rightarrow> bool \<Rightarrow> sgg outcome" where
  "sgg_init N indices tms period is_sorted =
    (let self0 = \<lparr>var_N = N, var_period = period, var_spike_number = [],
                  var_neuron_index = [], var_spike_time = [], var_lastindex = 0,
                  self_neuron_index = [], self_spike_time = [],
                  spikes_changed = True, previous_dt = None, warnings = 0\<rparr>
     in if N < 1 then Raised BadN
        else case check_args self0 indices tms period N is_sorted of
               (self1, Raised e) \<Rightarrow> Raised e
             | (self1, Returned (indices', tms')) \<Rightarrow>
                 Returned (self1\<lparr>var_N := N,
                                 var_spike_number := [0..<length indices'],
                                 var_neuron_index := indices',
                                 var_spike_time := tms',
                                 var_lastindex := 0,
                                 previous_dt := None,
                                 var_period := period\<rparr>))"

subsection \<open>\<^verbatim>\<open>set_spikes\<close> (lines 209-246)\<close>

definition set_spikes ::
  "sgg \<Rightarrow> int list \<Rightarrow> real list \<Rightarrow> period \<Rightarrow> bool \<Rightarrow> sgg \<times> unit outcome"
where
  "set_spikes self indices tms period is_sorted =
    (case check_args self indices tms period (var_N self) is_sorted of
       (self1, Raised e) \<Rightarrow> (self1, Raised e)
     | (self1, Returned (indices', tms')) \<Rightarrow>
         (self1\<lparr>var_period := period,
                 var_spike_number := [0..<length indices'],
                 var_neuron_index := indices',
                 var_spike_time := tms'\<rparr>,
          Returned ()))"

subsection \<open>\<^verbatim>\<open>before_run\<close> (lines 145-206)\<close>

text \<open>
  The checks of the period against \<open>dt\<close> (lines 149-169): \<open>None\<close> when they pass.
  \<^verbatim>\<open>np.arange(n_periods) * period\<close> are the multiples \<open>0, period, ..,
  (n_periods - 1) * period\<close>.
\<close>

definition check_period :: "period \<Rightarrow> real \<Rightarrow> error option" where
  "check_period period dt =
    (case period of
       Inf_period \<Rightarrow> None
     | Finite_period p \<Rightarrow>
         if p < dt then Some PeriodBelowDt
         else if p < 1000 then
           (if p = 0 then Some DivisionError
            else
              let n_periods = trunc (1000 / p);
                  periods = map (\<lambda>k. real k * p) [0..<nat n_periods]
              in if \<not> list_all (\<lambda>x. np_mod (timestep x dt) (timestep p dt) = 0) periods
                 then Some PeriodNotMultiple
                 else None)
         else None)"

text \<open>\<^verbatim>\<open>np.nonzero(timesteps < current_step)[0]\<close> (line 175).\<close>

definition in_the_past :: "int list \<Rightarrow> int \<Rightarrow> nat list" where
  "in_the_past timesteps current_step =
     filter (\<lambda>k. timesteps ! k < current_step) [0..<length timesteps]"

text \<open>The recomputation of \<^verbatim>\<open>_lastindex\<close> (lines 172-184).\<close>

definition update_lastindex :: "sgg \<Rightarrow> real \<Rightarrow> real \<Rightarrow> sgg" where
  "update_lastindex self current_t dt =
    (let timesteps = map (\<lambda>t. timestep t dt) (self_spike_time self);
         current_step = timestep current_t dt;
         past = in_the_past timesteps current_step
     in if past \<noteq> []
        then self\<lparr>warnings := warnings self + 1, var_lastindex := last past + 1\<rparr>
        else self\<lparr>var_lastindex := 0\<rparr>)"

text \<open>
  The value lines 176-184 give to \<^verbatim>\<open>_lastindex\<close>, as a function of the timesteps of the
  spikes and the current step.
\<close>

definition cursor_value :: "int list \<Rightarrow> int \<Rightarrow> nat" where
  "cursor_value ts cur =
     (if in_the_past ts cur \<noteq> [] then last (in_the_past ts cur) + 1 else 0)"

text \<open>
  The time bins of the collision check (lines 192-194). The sum and the quotient are exact
  here; the source rounds each of them to float64 before the conversion.
\<close>

definition timebins :: "real list \<Rightarrow> real \<Rightarrow> int option list" where
  "timebins spike_time dt =
    (let shift = 1 / 1000 * dt
     in map (\<lambda>t. astype_int32 ((t + shift) / dt)) spike_time)"

text \<open>
  The condition of line 198. The two arrays have one length in every object built by
  \<^verbatim>\<open>_check_args\<close>; two bins outside the int32 range count as equal.
\<close>

definition spikes_collide :: "real list \<Rightarrow> int list \<Rightarrow> real \<Rightarrow> bool" where
  "spikes_collide spike_time neuron_index dt =
     list_ex (\<lambda>(b, i). b \<and> i)
       (zip (diff_is_zero (timebins spike_time dt)) (diff_is_zero neuron_index))"

text \<open>
  \<open>current_t\<close> is \<^verbatim>\<open>self.variables['t']\<close> and \<open>dt\<close> is \<^verbatim>\<open>self.dt_\<close>; both belong to the
  clock, so they are arguments here. The call of the superclass at line 206 is not part of
  the source.
\<close>

definition before_run :: "sgg \<Rightarrow> real \<Rightarrow> real \<Rightarrow> sgg \<times> unit outcome" where
  "before_run self current_t dt =
    (case check_period (var_period self) dt of
       Some e \<Rightarrow> (self, Raised e)
     | None \<Rightarrow>
         let self1 = (if spikes_changed self then update_lastindex self current_t dt
                      else self)
         in if previous_dt self1 = None \<or> Some dt \<noteq> previous_dt self1 \<or> spikes_changed self1
            then
              (if spikes_collide (self_spike_time self1) (self_neuron_index self1) dt
               then (self1, Raised SpikeCollision)
               else (self1\<lparr>previous_dt := Some dt, spikes_changed := False\<rparr>, Returned ()))
            else (self1, Returned ()))"

subsection \<open>Example objects\<close>

text \<open>
  A group of two neurons after a completed run at \<open>dt\<close> = 1 ms: one spike of neuron 1 at
  0.5 s, period 1 s, nothing changed since the check.
\<close>

definition g0 :: sgg where
  "g0 = \<lparr>var_N = 2, var_period = Finite_period 1, var_spike_number = [0],
         var_neuron_index = [1], var_spike_time = [1 / 2], var_lastindex = 0,
         self_neuron_index = [1], self_spike_time = [1 / 2],
         spikes_changed = False, previous_dt = Some (1 / 1000), warnings = 0\<rparr>"

subsection \<open>The stored schedule\<close>

text \<open>
  The events of the arrays the runtime reads, as pairs (neuron index, spike time), and the
  key of the canonical order: the time first, then the neuron index.
\<close>

definition events :: "sgg \<Rightarrow> (int \<times> real) list" where
  "events self = zip (var_neuron_index self) (var_spike_time self)"

definition event_key :: "int \<times> real \<Rightarrow> real \<times> int" where
  "event_key e = (snd e, fst e)"

text \<open>
  The object stores the stable sort by (time, index) of the given events: in the arrays of
  the runtime, in the attributes read by \<^verbatim>\<open>before_run\<close>, with the spike numbers
  \<open>0, .., M - 1\<close>.
\<close>

definition stores_sorted :: "sgg \<Rightarrow> int list \<Rightarrow> real list \<Rightarrow> bool" where
  "stores_sorted self indices tms =
     (events self = sort_key event_key (zip indices tms)
      \<and> mset (events self) = mset (zip indices tms)
      \<and> sorted (map event_key (events self))
      \<and> length (var_neuron_index self) = length indices
      \<and> length (var_spike_time self) = length indices
      \<and> var_spike_number self = [0..<length indices]
      \<and> self_neuron_index self = var_neuron_index self
      \<and> self_spike_time self = var_spike_time self)"

text \<open>
  The group built from the spikes of neuron 0 at 0.5 ms and 0.7 ms and a spike of neuron 1
  at 0.6 ms between them, with the default period \<^verbatim>\<open>1e100*second\<close>; and the group built
  from the two spikes of neuron 0 alone.
\<close>

definition g_three :: sgg where
  "g_three = \<lparr>var_N = 2, var_period = Finite_period (10 ^ 100), var_spike_number = [0, 1, 2],
         var_neuron_index = [0, 1, 0],
         var_spike_time = [5 / 10000, 6 / 10000, 7 / 10000], var_lastindex = 0,
         self_neuron_index = [0, 1, 0],
         self_spike_time = [5 / 10000, 6 / 10000, 7 / 10000],
         spikes_changed = True, previous_dt = None, warnings = 0\<rparr>"

definition g_two :: sgg where
  "g_two = \<lparr>var_N = 2, var_period = Finite_period (10 ^ 100), var_spike_number = [0, 1],
         var_neuron_index = [0, 0],
         var_spike_time = [5 / 10000, 7 / 10000], var_lastindex = 0,
         self_neuron_index = [0, 0],
         self_spike_time = [5 / 10000, 7 / 10000],
         spikes_changed = True, previous_dt = None, warnings = 0\<rparr>"

text \<open>
  The group \<^verbatim>\<open>SpikeGeneratorGroup(1, [0, 0], [3000, 3001]*second)\<close>: one neuron, two
  spikes a second apart, late in a long simulation.
\<close>

definition g_long :: sgg where
  "g_long = \<lparr>var_N = 1, var_period = Finite_period (10 ^ 100), var_spike_number = [0, 1],
         var_neuron_index = [0, 0], var_spike_time = [3000, 3001], var_lastindex = 0,
         self_neuron_index = [0, 0], self_spike_time = [3000, 3001],
         spikes_changed = True, previous_dt = None, warnings = 0\<rparr>"

text \<open>A group without spikes and with period 300 s.\<close>

definition g_period :: sgg where
  "g_period = \<lparr>var_N = 1, var_period = Finite_period 300, var_spike_number = [],
         var_neuron_index = [], var_spike_time = [], var_lastindex = 0,
         self_neuron_index = [], self_spike_time = [],
         spikes_changed = True, previous_dt = None, warnings = 0\<rparr>"

text \<open>
  \<open>g0\<close> after \<^verbatim>\<open>set_spikes([0, 0], [0.5, 0.1]*second, sorted=True)\<close>: the caller's word is
  taken and the times are stored as given, the later one first.
\<close>

definition g_unsorted :: sgg where
  "g_unsorted = g0\<lparr>var_period := Finite_period (10 ^ 100), var_spike_number := [0, 1],
         var_neuron_index := [0, 0], var_spike_time := [5 / 10, 1 / 10],
         self_neuron_index := [0, 0], self_spike_time := [5 / 10, 1 / 10],
         spikes_changed := True\<rparr>"

text \<open>\<open>g0\<close> after \<^verbatim>\<open>set_spikes([0], [2]*ms)\<close>: one spike at 2 ms.\<close>

definition g_past :: sgg where
  "g_past = g0\<lparr>var_period := Finite_period (10 ^ 100), var_spike_number := [0],
         var_neuron_index := [0], var_spike_time := [2 / 1000],
         self_neuron_index := [0], self_spike_time := [2 / 1000],
         spikes_changed := True\<rparr>"

text \<open>The group \<^verbatim>\<open>SpikeGeneratorGroup(2, [], []*second)\<close>.\<close>

definition g_empty :: sgg where
  "g_empty = \<lparr>var_N = 2, var_period = Finite_period (10 ^ 100), var_spike_number = [],
         var_neuron_index = [], var_spike_time = [], var_lastindex = 0,
         self_neuron_index = [], self_spike_time = [],
         spikes_changed = True, previous_dt = None, warnings = 0\<rparr>"

subsection \<open>The objects a program can hold\<close>

text \<open>
  An object is built by the constructor and changed by \<^verbatim>\<open>set_spikes\<close> and by
  \<^verbatim>\<open>before_run\<close> (whose clock has \<open>dt > 0\<close>), whether they return or raise. Between run
  starts the stepping runtime moves \<^verbatim>\<open>_lastindex\<close>.
\<close>

text \<open>
  Modelled from the spec: the stepping runtime (the template \<^verbatim>\<open>spikegenerator\<close>) is not
  among the sources; of it the specification says that the cursor stays within
  \<open>0 \<le> cursor \<le> M\<close>, \<open>M\<close> the number of stored events. This is the rule \<open>stepped\<close>; the
  other three rules are the source.
\<close>

inductive reachable :: "sgg \<Rightarrow> bool" where
  constructed:
    "sgg_init N indices tms period is_sorted = Returned self \<Longrightarrow> reachable self"
| replaced:
    "reachable self \<Longrightarrow> set_spikes self indices tms period is_sorted = (self', r)
       \<Longrightarrow> reachable self'"
| run_started:
    "reachable self \<Longrightarrow> 0 < dt \<Longrightarrow> before_run self t dt = (self', r)
       \<Longrightarrow> reachable self'"
| stepped:
    "reachable self \<Longrightarrow> c \<le> length (var_spike_time self)
       \<Longrightarrow> reachable (self\<lparr>var_lastindex := c\<rparr>)"

section \<open>Properties\<close>

subsection \<open>The numpy helpers\<close>

lemma amax_Max: "xs \<noteq> [] \<Longrightarrow> amax xs = Max (set xs)"
  by (cases xs) (simp_all add: amax_def Max.set_eq_fold del: set_simps)

lemma amin_Min: "xs \<noteq> [] \<Longrightarrow> amin xs = Min (set xs)"
  by (cases xs) (simp_all add: amin_def Min.set_eq_fold del: set_simps)

lemma amin_le_amax: "xs \<noteq> [] \<Longrightarrow> amin xs \<le> amax xs"
  by (simp add: amax_Max amin_Min)

lemma trunc_nonneg: "0 \<le> x \<Longrightarrow> trunc x = \<lfloor>x\<rfloor>"
  by (simp add: trunc_def)

lemma astype_int32_floor:
  "0 \<le> x \<Longrightarrow> \<lfloor>x\<rfloor> < 2 ^ 31 \<Longrightarrow> astype_int32 x = Some \<lfloor>x\<rfloor>"
proof -
  assume nn: "0 \<le> x" and b: "\<lfloor>x\<rfloor> < 2 ^ 31"
  have "(0::int) \<le> \<lfloor>x\<rfloor>" using nn by simp
  then have "- (2 ^ 31) \<le> \<lfloor>x\<rfloor>" by simp
  then show ?thesis
    using b by (simp add: astype_int32_def trunc_nonneg [OF nn])
qed

subsection \<open>The time bins of the collision check\<close>

text \<open>
  Lines 173 and 193 bin the same spike times by the same expression, once through
  \<^verbatim>\<open>timestep\<close> and once through the int32 conversion. Below \<open>2 ^ 31\<close> the two agree.
\<close>

lemma timebins_timestep:
  assumes "0 \<le> t" "0 < dt" "timestep t dt < 2 ^ 31"
  shows "timebins [t] dt = [Some (timestep t dt)]"
proof -
  define x where "x = (t + 1 / 1000 * dt) / dt"
  have nn: "0 \<le> x" using assms(1,2) by (simp add: x_def)
  have "\<lfloor>x\<rfloor> < 2 ^ 31" using assms(3) by (simp add: x_def timestep_def)
  with nn have "astype_int32 x = Some \<lfloor>x\<rfloor>" by (rule astype_int32_floor)
  then show ?thesis unfolding timebins_def timestep_def Let_def x_def by simp
qed

text \<open>
  C6 on the source. Neuron 0 spikes at 3000 s and at 3001 s and \<open>dt\<close> is 1 us. The floor
  of \<open>(t + 1e-3 * dt) / dt\<close> is 3000000000 for the first spike and 3001000000 for the
  second, which is what \<^verbatim>\<open>timestep\<close> gives at line 173; neither is an int32, so neither is
  the bin of line 193. Both conversions leave the int32 range, the two bins compare as
  equal, and the run start raises the collision error for two spikes a million timesteps
  apart.
\<close>

theorem timebins_overflow_false_collision:
  "sgg_init 1 [0, 0] [3000, 3001] (Finite_period (10 ^ 100)) False = Returned g_long
   \<and> timestep 3000 (1 / 1000000) = 3000000000
   \<and> timestep 3001 (1 / 1000000) = 3001000000
   \<and> (2 :: int) ^ 31 \<le> timestep 3000 (1 / 1000000)
   \<and> timebins (self_spike_time g_long) (1 / 1000000) = [None, None]
   \<and> before_run g_long 0 (1 / 1000000) = (g_long, Raised SpikeCollision)"
proof (intro conjI)
  show "sgg_init 1 [0, 0] [3000, 3001] (Finite_period (10 ^ 100)) False = Returned g_long"
    by (simp add: sgg_init_def check_args_def g_long_def amax_def amin_def lexsort_def
        take_at_def less_eq_prod_def Let_def)
  show "timebins (self_spike_time g_long) (1 / 1000000) = [None, None]"
    by (simp add: g_long_def timebins_def astype_int32_def trunc_def)
  show "before_run g_long 0 (1 / 1000000) = (g_long, Raised SpikeCollision)"
    by (simp add: before_run_def check_period_def update_lastindex_def in_the_past_def
        timestep_def spikes_collide_def timebins_def astype_int32_def trunc_def
        diff_is_zero_def g_long_def Let_def)
qed (simp_all add: timestep_def)

text \<open>The run start raises although the two spikes are in different timesteps.\<close>

theorem timebins_overflow_false_collision_witness:
  "snd (before_run g_long 0 (1 / 1000000)) = Raised SpikeCollision
   \<and> timestep 3000 (1 / 1000000) \<noteq> timestep 3001 (1 / 1000000)"
  using timebins_overflow_false_collision by simp

subsection \<open>Argument validation\<close>

lemma check_args_raised_same:
  "check_args self indices tms period N is_sorted = (self', Raised e) \<Longrightarrow> self' = self"
  by (simp add: check_args_def Let_def split: if_splits)

lemma check_args_raised_class:
  "check_args self indices tms period N is_sorted = (self', Raised e)
     \<Longrightarrow> spec_class e = ArgumentError"
  by (auto simp add: check_args_def Let_def split: if_splits)

lemma set_spikes_raised:
  "set_spikes self indices tms period is_sorted = (self', Raised e)
     \<Longrightarrow> check_args self indices tms period (var_N self) is_sorted = (self', Raised e)"
  by (auto simp add: set_spikes_def split: prod.splits outcome.splits)

text \<open>\<^verbatim>\<open>_check_args\<close> raises exactly when one of its five tests fires.\<close>

lemma check_args_fails_iff:
  "(\<exists>e. check_args self indices tms period N is_sorted = (self, Raised e))
   \<longleftrightarrow> (length indices \<noteq> length tms \<or> period_less period 0
        \<or> (tms \<noteq> [] \<and> period_le period (amax tms))
        \<or> (tms \<noteq> [] \<and> amin tms < 0)
        \<or> (indices \<noteq> [] \<and> (amin indices < 0 \<or> N \<le> amax indices)))"
  by (auto simp add: check_args_def Let_def)

text \<open>
  C9. When an input of \<^verbatim>\<open>set_spikes\<close> fails a test of the validation (lengths, negative
  period, period not above the largest time, negative time, index outside \<open>[0, N)\<close>), the
  call raises an ArgumentError and the object is the one before the call; and whenever
  \<^verbatim>\<open>set_spikes\<close> raises, the object is unchanged: schedule, period, spike numbers and
  dirty flag alike.
\<close>

theorem set_spikes_atomic_on_failure:
  "((length indices \<noteq> length tms \<or> period_less period 0
        \<or> (tms \<noteq> [] \<and> period_le period (amax tms))
        \<or> (tms \<noteq> [] \<and> amin tms < 0)
        \<or> (indices \<noteq> [] \<and> (amin indices < 0 \<or> var_N self \<le> amax indices)))
      \<longrightarrow> (\<exists>e. set_spikes self indices tms period is_sorted = (self, Raised e)
                \<and> spec_class e = ArgumentError))
   \<and> (\<forall>self' e. set_spikes self indices tms period is_sorted = (self', Raised e)
         \<longrightarrow> self' = self \<and> spec_class e = ArgumentError)"
proof (intro conjI impI allI)
  assume "length indices \<noteq> length tms \<or> period_less period 0
        \<or> (tms \<noteq> [] \<and> period_le period (amax tms))
        \<or> (tms \<noteq> [] \<and> amin tms < 0)
        \<or> (indices \<noteq> [] \<and> (amin indices < 0 \<or> var_N self \<le> amax indices))"
  then obtain e
    where e: "check_args self indices tms period (var_N self) is_sorted = (self, Raised e)"
    using check_args_fails_iff [of self indices tms period "var_N self" is_sorted] by blast
  then have "set_spikes self indices tms period is_sorted = (self, Raised e)"
    by (simp add: set_spikes_def)
  moreover have "spec_class e = ArgumentError"
    using e by (rule check_args_raised_class)
  ultimately show "\<exists>e. set_spikes self indices tms period is_sorted = (self, Raised e)
                \<and> spec_class e = ArgumentError" by blast
next
  fix self' e
  assume "set_spikes self indices tms period is_sorted = (self', Raised e)"
  then have c: "check_args self indices tms period (var_N self) is_sorted = (self', Raised e)"
    by (rule set_spikes_raised)
  show "self' = self" using c by (rule check_args_raised_same)
  show "spec_class e = ArgumentError" using c by (rule check_args_raised_class)
qed

text \<open>A negative time offered to the clean object \<open>g0\<close>: the call raises and \<open>g0\<close> stays.\<close>

theorem set_spikes_atomic_on_failure_witness:
  "set_spikes g0 [0] [- 1] (Finite_period 1) False = (g0, Raised NegativeTime)"
proof -
  have "\<exists>e. set_spikes g0 [0] [- 1] (Finite_period 1) False = (g0, Raised e)
                \<and> spec_class e = ArgumentError"
    using set_spikes_atomic_on_failure [of "[0]" "[- 1]" "Finite_period 1" g0 False]
    by (simp add: amin_def amax_def)
  moreover have "snd (set_spikes g0 [0] [- 1] (Finite_period 1) False) = Raised NegativeTime"
    by (simp add: set_spikes_def check_args_def amin_def amax_def)
  ultimately show ?thesis by (metis snd_conv)
qed

text \<open>
  C7. With a non-empty array of times and period 0, \<^verbatim>\<open>_check_args\<close> raises an
  ArgumentError, and so do \<^verbatim>\<open>set_spikes\<close> and a construction that reaches the validation
  (\<open>N \<ge> 1\<close>). With an empty array of times, period 0 passes both tests of the period, and
  the empty schedule with period 0 is accepted.
\<close>

theorem period_zero_needs_empty_times:
  "(tms \<noteq> [] \<longrightarrow>
      (\<exists>e. check_args self indices tms (Finite_period 0) N is_sorted = (self, Raised e)
           \<and> set_spikes self indices tms (Finite_period 0) is_sorted = (self, Raised e)
           \<and> spec_class e = ArgumentError)
    \<and> (1 \<le> N \<longrightarrow> (\<exists>e. sgg_init N indices tms (Finite_period 0) is_sorted = Raised e
                        \<and> spec_class e = ArgumentError)))
   \<and> snd (check_args self indices [] (Finite_period 0) N is_sorted) \<noteq> Raised NegativePeriod
   \<and> snd (check_args self indices [] (Finite_period 0) N is_sorted) \<noteq> Raised PeriodNotAboveMax
   \<and> snd (check_args self [] [] (Finite_period 0) N is_sorted) = Returned ([], [])"
proof (intro conjI impI)
  assume ne: "tms \<noteq> []"
  have bad: "period_le (Finite_period 0) (amax tms) \<or> amin tms < 0"
    using amin_le_amax [OF ne] by (cases "0 \<le> amax tms") auto
  define e1 where "e1 = (if length indices \<noteq> length tms then LengthMismatch
                         else if 0 \<le> amax tms then PeriodNotAboveMax else NegativeTime)"
  have d: "check_args s indices tms (Finite_period 0) M is_sorted = (s, Raised e1)" for s M
    using ne bad by (auto simp add: check_args_def e1_def)
  have c1: "spec_class e1 = ArgumentError"
    by (simp add: e1_def)
  have e1: "check_args self indices tms (Finite_period 0) N is_sorted = (self, Raised e1)"
    by (rule d)
  have "set_spikes self indices tms (Finite_period 0) is_sorted = (self, Raised e1)"
    by (simp add: set_spikes_def d)
  with e1 c1
  show "\<exists>e. check_args self indices tms (Finite_period 0) N is_sorted = (self, Raised e)
           \<and> set_spikes self indices tms (Finite_period 0) is_sorted = (self, Raised e)
           \<and> spec_class e = ArgumentError"
    by blast
  assume "1 \<le> N"
  then have "sgg_init N indices tms (Finite_period 0) is_sorted = Raised e1"
    by (simp add: sgg_init_def d)
  with c1 show "\<exists>e. sgg_init N indices tms (Finite_period 0) is_sorted = Raised e
                        \<and> spec_class e = ArgumentError"
    by blast
qed (simp_all add: check_args_def Let_def lexsort_def take_at_def)

text \<open>One spike at 0.5 s with period 0: the test of the period against the largest time fires.\<close>

theorem period_zero_needs_empty_times_witness:
  "check_args g0 [0] [1 / 2] (Finite_period 0) 2 False = (g0, Raised PeriodNotAboveMax)
   \<and> sgg_init 2 [0] [1 / 2] (Finite_period 0) False = Raised PeriodNotAboveMax"
proof -
  have "\<exists>e. check_args g0 [0] [1 / 2] (Finite_period 0) 2 False = (g0, Raised e)
           \<and> set_spikes g0 [0] [1 / 2] (Finite_period 0) False = (g0, Raised e)
           \<and> spec_class e = ArgumentError"
    using period_zero_needs_empty_times [of "[1 / 2]" g0 "[0]" 2 False] by simp
  moreover have "snd (check_args g0 [0] [1 / 2] (Finite_period 0) 2 False)
      = Raised PeriodNotAboveMax"
    by (simp add: check_args_def amax_def)
  moreover have "sgg_init 2 [0] [1 / 2] (Finite_period 0) False = Raised PeriodNotAboveMax"
    by (simp add: sgg_init_def check_args_def amax_def)
  ultimately show ?thesis by (metis snd_conv)
qed

subsection \<open>The stored schedule is the sorted input\<close>

lemma map_insort_key:
  "map g (insort_key (\<lambda>x. f (g x)) x ys) = insort_key f (g x) (map g ys)"
  by (induction ys) simp_all

lemma map_sort_key:
  "map g (sort_key (\<lambda>x. f (g x)) xs) = sort_key f (map g xs)"
  by (induction xs) (simp_all add: map_insort_key)

lemma map_nth_pair:
  "length a = length b \<Longrightarrow> map (\<lambda>k. (a ! k, b ! k)) [0..<length b] = zip a b"
  by (rule nth_equalityI) simp_all

lemma zip_take_at: "zip (take_at a I) (take_at b I) = map (\<lambda>k. (a ! k, b ! k)) I"
  by (simp add: take_at_def zip_map_map zip_same_conv_map)

lemma lexsort_events:
  assumes "length indices = length tms"
  shows "zip (take_at indices (lexsort indices tms)) (take_at tms (lexsort indices tms))
           = sort_key event_key (zip indices tms)"
proof -
  let ?g = "\<lambda>k. (indices ! k, tms ! k)"
  have key: "(\<lambda>k. (tms ! k, indices ! k)) = (\<lambda>k. event_key (?g k))"
    by (simp add: event_key_def)
  have "zip (take_at indices (lexsort indices tms)) (take_at tms (lexsort indices tms))
          = map ?g (sort_key (\<lambda>k. event_key (?g k)) [0..<length tms])"
    unfolding zip_take_at lexsort_def key ..
  also have "\<dots> = sort_key event_key (map ?g [0..<length tms])"
    by (rule map_sort_key)
  also have "\<dots> = sort_key event_key (zip indices tms)"
    using assms by (simp add: map_nth_pair)
  finally show ?thesis .
qed

lemma length_lexsort: "length (lexsort indices tms) = length tms"
  by (simp add: lexsort_def)

lemma check_args_returned_unsorted:
  assumes "check_args self indices tms period N False = (self', Returned (indices', tms'))"
  shows "zip indices' tms' = sort_key event_key (zip indices tms)"
    and "length indices' = length indices" and "length tms' = length indices"
    and "self' = self\<lparr>self_neuron_index := indices', self_spike_time := tms',
                      spikes_changed := True\<rparr>"
proof -
  have len: "length indices = length tms"
    using assms by (simp add: check_args_def Let_def split: if_splits)
  have i: "indices' = take_at indices (lexsort indices tms)"
    and t: "tms' = take_at tms (lexsort indices tms)"
    using assms by (auto simp add: check_args_def Let_def split: if_splits)
  show "zip indices' tms' = sort_key event_key (zip indices tms)"
    unfolding i t using len by (rule lexsort_events)
  show "length indices' = length indices"
    by (simp add: i take_at_def length_lexsort len)
  show "length tms' = length indices"
    by (simp add: t take_at_def length_lexsort len)
  show "self' = self\<lparr>self_neuron_index := indices', self_spike_time := tms',
                      spikes_changed := True\<rparr>"
    using assms by (auto simp add: check_args_def Let_def split: if_splits)
qed

lemma stores_sortedI:
  assumes "zip (var_neuron_index s) (var_spike_time s) = sort_key event_key (zip indices tms)"
    and "length (var_neuron_index s) = length indices"
    and "length (var_spike_time s) = length indices"
    and "var_spike_number s = [0..<length indices]"
    and "self_neuron_index s = var_neuron_index s"
    and "self_spike_time s = var_spike_time s"
  shows "stores_sorted s indices tms"
  using assms by (simp add: stores_sorted_def events_def)

text \<open>
  C4. When \<^verbatim>\<open>set_spikes\<close> or the constructor accepts an input with \<^verbatim>\<open>sorted=False\<close>, the
  stored events are the stable sort of the given (index, time) pairs by time first and
  index second: the same multiset, ascending in (time, index), in the arrays of the
  runtime and in the attributes alike.
\<close>

theorem stored_schedule_is_sorted_input:
  "(set_spikes self indices tms period False = (self', Returned ())
      \<longrightarrow> stores_sorted self' indices tms)
   \<and> (sgg_init N indices tms period False = Returned self'
      \<longrightarrow> stores_sorted self' indices tms)"
proof (intro conjI impI)
  assume a: "set_spikes self indices tms period False = (self', Returned ())"
  then obtain s1 indices' tms'
    where c: "check_args self indices tms period (var_N self) False
                = (s1, Returned (indices', tms'))"
      and s: "self' = s1\<lparr>var_period := period, var_spike_number := [0..<length indices'],
                         var_neuron_index := indices', var_spike_time := tms'\<rparr>"
    by (auto simp add: set_spikes_def split: prod.splits outcome.splits)
  note r = check_args_returned_unsorted [OF c]
  show "stores_sorted self' indices tms"
    by (rule stores_sortedI) (simp_all add: s r)
next
  assume a: "sgg_init N indices tms period False = Returned self'"
  then obtain s0 s1 indices' tms'
    where c: "check_args s0 indices tms period N False = (s1, Returned (indices', tms'))"
      and s: "self' = s1\<lparr>var_N := N, var_spike_number := [0..<length indices'],
                         var_neuron_index := indices', var_spike_time := tms',
                         var_lastindex := 0, previous_dt := None, var_period := period\<rparr>"
    by (auto simp add: sgg_init_def Let_def split: if_splits prod.splits outcome.splits)
  note r = check_args_returned_unsorted [OF c]
  show "stores_sorted self' indices tms"
    by (rule stores_sortedI) (simp_all add: s r)
qed

lemma event_key_le:
  "event_key (i, t) \<le> event_key (j, u) \<longleftrightarrow> t < u \<or> (t = u \<and> i \<le> j)"
  by (auto simp add: event_key_def less_eq_prod_def)

text \<open>Three events offered out of order to \<open>g0\<close>, two of them at the same time 0.3 s.\<close>

theorem stored_schedule_is_sorted_input_witness:
  "set_spikes g0 [1, 0, 0] [3 / 10, 3 / 10, 1 / 10] (Finite_period 1) False
     = (g0\<lparr>var_spike_number := [0, 1, 2], var_neuron_index := [0, 0, 1],
           var_spike_time := [1 / 10, 3 / 10, 3 / 10], self_neuron_index := [0, 0, 1],
           self_spike_time := [1 / 10, 3 / 10, 3 / 10], spikes_changed := True\<rparr>,
        Returned ())
   \<and> stores_sorted
        (g0\<lparr>var_spike_number := [0, 1, 2], var_neuron_index := [0, 0, 1],
            var_spike_time := [1 / 10, 3 / 10, 3 / 10], self_neuron_index := [0, 0, 1],
            self_spike_time := [1 / 10, 3 / 10, 3 / 10], spikes_changed := True\<rparr>)
        [1, 0, 0] [3 / 10, 3 / 10, 1 / 10]"
proof -
  have "set_spikes g0 [1, 0, 0] [3 / 10, 3 / 10, 1 / 10] (Finite_period 1) False
     = (g0\<lparr>var_spike_number := [0, 1, 2], var_neuron_index := [0, 0, 1],
           var_spike_time := [1 / 10, 3 / 10, 3 / 10], self_neuron_index := [0, 0, 1],
           self_spike_time := [1 / 10, 3 / 10, 3 / 10], spikes_changed := True\<rparr>,
        Returned ())"
    by (simp add: set_spikes_def check_args_def g0_def amax_def amin_def lexsort_def
        take_at_def upt_rec less_eq_prod_def Let_def)
  then show ?thesis
    using stored_schedule_is_sorted_input
      [of g0 "[1, 0, 0]" "[3 / 10, 3 / 10, 1 / 10]" "Finite_period 1"]
    by simp
qed

subsection \<open>Sorted and unsorted replacement\<close>

lemma mset_zip_snd:
  assumes "length a = length b" "length a' = length b'" "mset (zip a' b') = mset (zip a b)"
  shows "mset b' = mset b"
proof -
  have "mset (map snd (zip a' b')) = mset (map snd (zip a b))"
    using assms(3) by (metis mset_map)
  then show ?thesis using assms(1,2) by simp
qed

lemma mset_zip_fst:
  assumes "length a = length b" "length a' = length b'" "mset (zip a' b') = mset (zip a b)"
  shows "mset a' = mset a"
proof -
  have "mset (map fst (zip a' b')) = mset (map fst (zip a b))"
    using assms(3) by (metis mset_map)
  then show ?thesis using assms(1,2) by simp
qed

lemma amax_mset:
  assumes "mset xs = mset ys"
  shows "amax xs = amax ys"
proof (cases "xs = []")
  case True
  then show ?thesis using assms by simp
next
  case False
  moreover have "ys \<noteq> []" using False assms by auto
  moreover have "set xs = set ys" using assms by (rule mset_eq_setD)
  ultimately show ?thesis by (simp add: amax_Max)
qed

lemma amin_mset:
  assumes "mset xs = mset ys"
  shows "amin xs = amin ys"
proof (cases "xs = []")
  case True
  then show ?thesis using assms by simp
next
  case False
  moreover have "ys \<noteq> []" using False assms by auto
  moreover have "set xs = set ys" using assms by (rule mset_eq_setD)
  ultimately show ?thesis by (simp add: amin_Min)
qed

lemma inj_event_key: "inj_on event_key A"
  by (rule inj_onI) (simp add: event_key_def prod_eq_iff)

text \<open>What \<^verbatim>\<open>_check_args\<close> decides depends on the arrays only through their lengths,
  extrema and emptiness.\<close>

lemma check_args_raised_cong:
  assumes "length indices = length tms \<longleftrightarrow> length indices' = length tms'"
    and "tms = [] \<longleftrightarrow> tms' = []" and "indices = [] \<longleftrightarrow> indices' = []"
    and "amax tms = amax tms'" and "amin tms = amin tms'"
    and "amax indices = amax indices'" and "amin indices = amin indices'"
  shows "check_args self indices tms period N b = (s, Raised e)
         \<longleftrightarrow> check_args self indices' tms' period N b' = (s, Raised e)"
  using assms by (simp add: check_args_def Let_def)

lemma check_args_returned_sorted:
  assumes "check_args self indices tms period N True = (self', Returned (indices', tms'))"
  shows "indices' = indices" and "tms' = tms"
    and "self' = self\<lparr>self_neuron_index := indices, self_spike_time := tms,
                      spikes_changed := True\<rparr>"
  using assms by (auto simp add: check_args_def Let_def split: if_splits)

lemma check_args_var_N:
  "check_args self indices tms period N b = (self', r) \<Longrightarrow> var_N self' = var_N self"
  by (auto simp add: check_args_def Let_def split: if_splits)

lemma set_spikes_var_N:
  "set_spikes self indices tms period b = (self', r) \<Longrightarrow> var_N self' = var_N self"
  by (auto simp add: set_spikes_def split: prod.splits outcome.splits dest: check_args_var_N)

text \<open>
  \<^verbatim>\<open>_check_args\<close> reads of the object nothing, and \<^verbatim>\<open>set_spikes\<close> only \<open>N\<close>; a second
  identical call changes nothing more.
\<close>

lemma check_args_outcome_indep:
  "snd (check_args s1 indices tms period N b) = snd (check_args s2 indices tms period N b)"
  by (simp add: check_args_def Let_def)

lemma set_spikes_again:
  assumes "set_spikes self indices tms period b = (self', r)"
  shows "set_spikes self' indices tms period b = (self', r)"
proof (cases "snd (check_args self indices tms period (var_N self) b)")
  case (Raised e)
  then obtain s1 where s1: "check_args self indices tms period (var_N self) b = (s1, Raised e)"
    by (metis prod.collapse)
  then have "s1 = self" by (rule check_args_raised_same)
  with s1 have "set_spikes self indices tms period b = (self, Raised e)"
    by (simp add: set_spikes_def)
  then show ?thesis using assms by simp
next
  case (Returned p)
  have n: "var_N self' = var_N self" using assms by (rule set_spikes_var_N)
  from Returned have ok: "\<not> (length indices \<noteq> length tms \<or> period_less period 0
        \<or> (tms \<noteq> [] \<and> period_le period (amax tms))
        \<or> (tms \<noteq> [] \<and> amin tms < 0)
        \<or> (indices \<noteq> [] \<and> (amin indices < 0 \<or> var_N self \<le> amax indices)))"
    by (auto simp add: check_args_def Let_def split: if_splits)
  then have "self' = fst (set_spikes self indices tms period b)" "r = Returned ()"
    using assms by (auto simp add: set_spikes_def check_args_def Let_def)
  then show ?thesis
    using ok by (auto simp add: set_spikes_def check_args_def Let_def)
qed

text \<open>
  C8. Let the arrays \<open>indices'\<close>, \<open>tms'\<close> hold a permutation of the events of \<open>indices\<close>,
  \<open>tms\<close>. \<^verbatim>\<open>set_spikes\<close> on the permutation with \<^verbatim>\<open>sorted=False\<close> gives the same object
  and the same outcome as \<^verbatim>\<open>set_spikes\<close> with \<^verbatim>\<open>sorted=True\<close> on the events sorted by
  (time, index); and the sorted call made after the unsorted one changes nothing.
\<close>

theorem unsorted_replace_equals_sorted_replace:
  assumes "length indices = length tms" and "length indices' = length tms'"
    and "mset (zip indices' tms') = mset (zip indices tms)"
  shows "set_spikes self indices' tms' period False
           = set_spikes self (map fst (sort_key event_key (zip indices tms)))
                             (map snd (sort_key event_key (zip indices tms))) period True
       \<and> set_spikes (fst (set_spikes self indices' tms' period False))
                    (map fst (sort_key event_key (zip indices tms)))
                    (map snd (sort_key event_key (zip indices tms))) period True
           = set_spikes self indices' tms' period False"
proof -
  define X where "X = sort_key event_key (zip indices tms)"
  define si where "si = map fst X"
  define st where "st = map snd X"
  have zipX: "zip si st = X" by (simp add: si_def st_def zip_map_fst_snd)
  have len: "length si = length st" by (simp add: si_def st_def)
  have msX: "mset (zip si st) = mset (zip indices' tms')"
    using assms(3) by (simp add: zipX X_def)
  have mt: "mset st = mset tms'" using assms(2) len msX by (rule mset_zip_snd)
  have mi: "mset si = mset indices'" using assms(2) len msX by (rule mset_zip_fst)
  have et: "st = [] \<longleftrightarrow> tms' = []" using mt by (metis mset_zero_iff)
  have ei: "si = [] \<longleftrightarrow> indices' = []" using mi by (metis mset_zero_iff)
  have sortX: "sort_key event_key (zip indices' tms') = X"
    unfolding X_def using assms(3) inj_event_key by (rule sort_key_eq_sort_key)
  have cong: "check_args s indices' tms' period N False = (s', Raised e)
              \<longleftrightarrow> check_args s si st period N True = (s', Raised e)" for s s' e N
    by (rule check_args_raised_cong)
       (simp_all add: assms(2) len et ei amax_mset [OF mt] amin_mset [OF mt]
          amax_mset [OF mi] amin_mset [OF mi])
  have eq: "set_spikes s indices' tms' period False = set_spikes s si st period True" for s
  proof (cases "check_args s indices' tms' period (var_N s) False")
    case (Pair s' r)
    show ?thesis
    proof (cases r)
      case (Raised e)
      have a: "check_args s indices' tms' period (var_N s) False = (s', Raised e)"
        using Pair Raised by simp
      then have b: "check_args s si st period (var_N s) True = (s', Raised e)"
        using cong by blast
      show ?thesis by (simp add: set_spikes_def a b)
    next
      case (Returned p)
      obtain i1 t1 where p: "p = (i1, t1)" by (cases p)
      note u = check_args_returned_unsorted [OF Pair [unfolded Returned p]]
      have "length i1 = length t1" using u(2,3) by simp
      then have i1: "i1 = si" and t1: "t1 = st"
        using u(1) sortX by (auto simp add: si_def st_def dest: arg_cong [of _ _ "map fst"]
            arg_cong [of _ _ "map snd"])
      obtain s2 r2 where c2: "check_args s si st period (var_N s) True = (s2, r2)"
        by (cases "check_args s si st period (var_N s) True")
      have "r2 = Returned (si, st) \<and> s2 = s\<lparr>self_neuron_index := si, self_spike_time := st,
                      spikes_changed := True\<rparr>"
      proof (cases r2)
        case (Raised e)
        then have "check_args s indices' tms' period (var_N s) False = (s2, Raised e)"
          using c2 cong by simp
        with Pair Returned show ?thesis by simp
      next
        case (Returned q)
        obtain i2 t2 where q: "q = (i2, t2)" by (cases q)
        note v = check_args_returned_sorted [OF c2 [unfolded Returned q]]
        show ?thesis using v Returned q by simp
      qed
      then show ?thesis
        using Pair Returned p u(4) i1 t1 c2 by (simp add: set_spikes_def)
    qed
  qed
  obtain s' r where sr: "set_spikes self indices' tms' period False = (s', r)"
    by (cases "set_spikes self indices' tms' period False")
  have "set_spikes s' si st period True = set_spikes s' indices' tms' period False"
    by (rule eq [symmetric])
  also have "\<dots> = (s', r)" using sr by (rule set_spikes_again)
  finally have "set_spikes (fst (set_spikes self indices' tms' period False)) si st period True
      = set_spikes self indices' tms' period False"
    by (simp add: sr)
  with eq [of self] show ?thesis
    unfolding si_def st_def X_def by simp
qed

text \<open>The three events of the example above, permuted and sorted; both calls succeed.\<close>

theorem unsorted_replace_equals_sorted_replace_witness:
  "set_spikes g0 [1, 0, 0] [3 / 10, 3 / 10, 1 / 10] (Finite_period 1) False
     = set_spikes g0 [0, 0, 1] [1 / 10, 3 / 10, 3 / 10] (Finite_period 1) True
   \<and> snd (set_spikes g0 [0, 0, 1] [1 / 10, 3 / 10, 3 / 10] (Finite_period 1) True)
       = Returned ()"
proof -
  have s: "sort_key event_key (zip [0, 1, 0] [3 / 10, 3 / 10, 1 / 10 :: real])
             = [(0, 1 / 10), (0, 3 / 10), (1, 3 / 10)]"
    by (simp add: event_key_def less_eq_prod_def)
  have "set_spikes g0 [1, 0, 0] [3 / 10, 3 / 10, 1 / 10] (Finite_period 1) False
     = set_spikes g0 [0, 0, 1] [1 / 10, 3 / 10, 3 / 10] (Finite_period 1) True"
    using unsorted_replace_equals_sorted_replace
      [of "[0, 1, 0]" "[3 / 10, 3 / 10, 1 / 10]" "[1, 0, 0]" "[3 / 10, 3 / 10, 1 / 10]"
          g0 "Finite_period 1", unfolded s]
    by simp
  moreover have "snd (set_spikes g0 [0, 0, 1] [1 / 10, 3 / 10, 3 / 10] (Finite_period 1) True)
       = Returned ()"
    by (simp add: set_spikes_def check_args_def g0_def amax_def amin_def Let_def)
  ultimately show ?thesis by simp
qed

subsection \<open>The collision check\<close>

lemma diff_is_zero_nth:
  "k < length (diff_is_zero a) \<Longrightarrow> diff_is_zero a ! k = (a ! Suc k = a ! k)"
  by (simp add: diff_is_zero_def nth_tl)

lemma length_diff_is_zero: "length (diff_is_zero a) = length a - 1"
  by (simp add: diff_is_zero_def)

lemma length_timebins: "length (timebins spike_time dt) = length spike_time"
  by (simp add: timebins_def)

text \<open>
  What the scan finds is a collision: it raises exactly when two adjacent events of one
  neuron have equal bins.
\<close>

lemma spikes_collide_adjacent:
  "spikes_collide spike_time neuron_index dt \<longleftrightarrow>
     (\<exists>k. Suc k < length spike_time \<and> Suc k < length neuron_index
          \<and> timebins spike_time dt ! Suc k = timebins spike_time dt ! k
          \<and> neuron_index ! Suc k = neuron_index ! k)"
proof -
  define b where "b = diff_is_zero (timebins spike_time dt)"
  define i where "i = diff_is_zero neuron_index"
  have lb: "k < length b \<longleftrightarrow> Suc k < length spike_time" for k
    unfolding b_def length_diff_is_zero length_timebins by arith
  have li: "k < length i \<longleftrightarrow> Suc k < length neuron_index" for k
    unfolding i_def length_diff_is_zero by arith
  have nb: "b ! k = (timebins spike_time dt ! Suc k = timebins spike_time dt ! k)"
    if "k < length b" for k
    using that unfolding b_def by (rule diff_is_zero_nth)
  have ni: "i ! k = (neuron_index ! Suc k = neuron_index ! k)" if "k < length i" for k
    using that unfolding i_def by (rule diff_is_zero_nth)
  have "spikes_collide spike_time neuron_index dt
        \<longleftrightarrow> (\<exists>k. k < length b \<and> k < length i \<and> b ! k \<and> i ! k)"
    unfolding spikes_collide_def b_def [symmetric] i_def [symmetric] list_ex_iff set_zip
    by auto
  also have "\<dots> \<longleftrightarrow> (\<exists>k. k < length b \<and> k < length i
          \<and> timebins spike_time dt ! Suc k = timebins spike_time dt ! k
          \<and> neuron_index ! Suc k = neuron_index ! k)"
    using nb ni by metis
  finally show ?thesis unfolding lb li .
qed

text \<open>
  C1 on the source. Neuron 0 spikes at 0.5 ms and at 0.7 ms, neuron 1 at 0.6 ms; at
  \<open>dt\<close> = 1 ms the three spikes are in bin 0. The constructor sorts them by time, which puts
  the spike of neuron 1 between the two of neuron 0, and the scan of adjacent pairs finds
  nothing: \<^verbatim>\<open>before_run\<close> returns and clears the dirty flag. Without the spike of
  neuron 1 the same two spikes of neuron 0 raise.
\<close>

theorem collision_scan_misses_separated_spikes:
  "sgg_init 2 [0, 1, 0] [5 / 10000, 6 / 10000, 7 / 10000] (Finite_period (10 ^ 100)) False
     = Returned g_three
   \<and> timebins (self_spike_time g_three) (1 / 1000) = [Some 0, Some 0, Some 0]
   \<and> self_neuron_index g_three = [0, 1, 0]
   \<and> before_run g_three 0 (1 / 1000)
       = (g_three\<lparr>previous_dt := Some (1 / 1000), spikes_changed := False\<rparr>, Returned ())
   \<and> sgg_init 2 [0, 0] [5 / 10000, 7 / 10000] (Finite_period (10 ^ 100)) False
       = Returned g_two
   \<and> before_run g_two 0 (1 / 1000) = (g_two, Raised SpikeCollision)"
proof (intro conjI)
  show "sgg_init 2 [0, 1, 0] [5 / 10000, 6 / 10000, 7 / 10000] (Finite_period (10 ^ 100)) False
     = Returned g_three"
    by (simp add: sgg_init_def check_args_def g_three_def amax_def amin_def lexsort_def
        take_at_def less_eq_prod_def Let_def)
  show "timebins (self_spike_time g_three) (1 / 1000) = [Some 0, Some 0, Some 0]"
    by (simp add: g_three_def timebins_def astype_int32_def trunc_def)
  show "self_neuron_index g_three = [0, 1, 0]"
    by (simp add: g_three_def)
  show "before_run g_three 0 (1 / 1000)
       = (g_three\<lparr>previous_dt := Some (1 / 1000), spikes_changed := False\<rparr>, Returned ())"
    by (simp add: before_run_def check_period_def update_lastindex_def in_the_past_def
        timestep_def spikes_collide_def timebins_def astype_int32_def trunc_def
        diff_is_zero_def g_three_def Let_def)
  show "sgg_init 2 [0, 0] [5 / 10000, 7 / 10000] (Finite_period (10 ^ 100)) False
       = Returned g_two"
    by (simp add: sgg_init_def check_args_def g_two_def amax_def amin_def lexsort_def
        take_at_def less_eq_prod_def Let_def)
  show "before_run g_two 0 (1 / 1000) = (g_two, Raised SpikeCollision)"
    by (simp add: before_run_def check_period_def update_lastindex_def in_the_past_def
        timestep_def spikes_collide_def timebins_def astype_int32_def trunc_def
        diff_is_zero_def g_two_def Let_def)
qed

text \<open>The run start on the three spikes returns although neuron 0 is twice in bin 0.\<close>

theorem collision_scan_misses_separated_spikes_witness:
  "snd (before_run g_three 0 (1 / 1000)) = Returned ()
   \<and> self_neuron_index g_three ! 0 = self_neuron_index g_three ! 2
   \<and> timebins (self_spike_time g_three) (1 / 1000) ! 0
       = timebins (self_spike_time g_three) (1 / 1000) ! 2"
  using collision_scan_misses_separated_spikes by simp

subsection \<open>The period against the timestep\<close>

lemma check_period_not_collision: "check_period period dt \<noteq> Some SpikeCollision"
  by (simp add: check_period_def Let_def split: period.splits)

lemma check_period_class:
  "0 < dt \<Longrightarrow> check_period period dt = Some e \<Longrightarrow> spec_class e = PeriodAlignmentError"
  by (auto simp add: check_period_def Let_def split: period.splits if_splits)

text \<open>What the heuristic samples: the multiples \<open>k * period\<close> for \<open>k < floor (1000 / period)\<close>.\<close>

lemma check_period_samples:
  assumes "0 < dt" "dt \<le> p" "p < 1000"
  shows "check_period (Finite_period p) dt = None
         \<longleftrightarrow> (\<forall>k < nat \<lfloor>1000 / p\<rfloor>. timestep (real k * p) dt mod timestep p dt = 0)"
proof -
  have p: "0 < p" using assms by simp
  then have tr: "trunc (1000 / p) = \<lfloor>1000 / p\<rfloor>" by (simp add: trunc_def)
  have "1 \<le> (p + 1 / 1000 * dt) / dt" using assms by (simp add: field_simps)
  then have "1 \<le> timestep p dt" unfolding timestep_def by linarith
  then have nz: "timestep p dt \<noteq> 0" by simp
  show ?thesis
    using assms p nz
    by (auto simp add: check_period_def Let_def tr np_mod_def list_all_iff)
qed

text \<open>
  C2 on the source. With period 300 s and \<open>dt\<close> = 125 s the period is 2.4 timesteps.
  \<^verbatim>\<open>int(1000. / period)\<close> is 3, so the multiples 0, 300 and 600 are sampled and pass
  (bins 0, 2, 4). The multiple 900 is below 1000 and its bin 7 is odd, and it is not
  sampled: the period check passes and the run start returns.
\<close>

theorem period_300_dt_125_passes:
  "check_period (Finite_period 300) 125 = None
   \<and> before_run g_period 0 125
       = (g_period\<lparr>var_lastindex := 0, previous_dt := Some 125, spikes_changed := False\<rparr>,
          Returned ())
   \<and> (3::real) * 300 < 1000
   \<and> timestep 300 125 = 2
   \<and> timestep (3 * 300) 125 = 7
   \<and> np_mod (timestep (3 * 300) 125) (timestep 300 125) = 1"
proof (intro conjI)
  show c: "check_period (Finite_period 300) 125 = None"
    by (simp add: check_period_def trunc_def timestep_def np_mod_def upt_conv_Cons)
  show "before_run g_period 0 125
       = (g_period\<lparr>var_lastindex := 0, previous_dt := Some 125, spikes_changed := False\<rparr>,
          Returned ())"
    by (simp add: before_run_def c [simplified] update_lastindex_def in_the_past_def
        spikes_collide_def timebins_def diff_is_zero_def g_period_def Let_def)
qed (simp_all add: timestep_def np_mod_def)

text \<open>The check passes although the multiple 900 s fails the test.\<close>

theorem period_300_dt_125_passes_witness:
  "snd (before_run g_period 0 125) = Returned ()
   \<and> timestep (3 * 300) 125 mod timestep 300 125 \<noteq> 0"
  using period_300_dt_125_passes by (simp add: np_mod_def)

subsection \<open>The playback cursor\<close>

lemma timestep_mono: "0 < dt \<Longrightarrow> t \<le> u \<Longrightarrow> timestep t dt \<le> timestep u dt"
  unfolding timestep_def by (intro floor_mono divide_right_mono) simp_all

lemma in_the_past_set:
  "set (in_the_past ts cur) = {k. k < length ts \<and> ts ! k < cur}"
  by (auto simp add: in_the_past_def)

lemma in_the_past_sorted: "sorted (in_the_past ts cur)"
  by (simp add: in_the_past_def sorted_wrt_filter)

lemma in_the_past_last:
  assumes "in_the_past ts cur \<noteq> []"
  shows "last (in_the_past ts cur) < length ts"
    and "ts ! last (in_the_past ts cur) < cur"
    and "k < length ts \<Longrightarrow> ts ! k < cur \<Longrightarrow> k \<le> last (in_the_past ts cur)"
proof -
  let ?p = "in_the_past ts cur"
  have "last ?p \<in> set ?p" using assms by (rule last_in_set)
  then show "last ?p < length ts" and "ts ! last ?p < cur"
    by (simp_all add: in_the_past_set)
  assume "k < length ts" and "ts ! k < cur"
  then have "k \<in> set ?p" by (simp add: in_the_past_set)
  then obtain j where j: "j < length ?p" and kj: "?p ! j = k"
    by (auto simp add: in_set_conv_nth)
  have "?p ! j \<le> ?p ! (length ?p - 1)"
    using in_the_past_sorted j by (intro sorted_nth_mono) simp_all
  then show "k \<le> last ?p"
    using assms kj by (simp add: last_conv_nth)
qed

lemma update_lastindex_cursor:
  "var_lastindex (update_lastindex self t dt)
     = cursor_value (map (\<lambda>x. timestep x dt) (self_spike_time self)) (timestep t dt)"
  by (simp add: update_lastindex_def cursor_value_def Let_def)

lemma cursor_value_props:
  shows "cursor_value ts cur \<le> length ts"
    and "cursor_value ts cur = 0 \<or> ts ! (cursor_value ts cur - 1) < cur"
    and "cursor_value ts cur \<le> k \<Longrightarrow> k < length ts \<Longrightarrow> cur \<le> ts ! k"
    and "sorted ts \<Longrightarrow> k < cursor_value ts cur \<Longrightarrow> ts ! k < cur"
proof -
  let ?p = "in_the_past ts cur"
  show "cursor_value ts cur \<le> length ts"
    using in_the_past_last(1) [of ts cur] by (auto simp add: cursor_value_def)
  show "cursor_value ts cur = 0 \<or> ts ! (cursor_value ts cur - 1) < cur"
    using in_the_past_last(2) [of ts cur] by (auto simp add: cursor_value_def)
  show "cur \<le> ts ! k" if "cursor_value ts cur \<le> k" "k < length ts"
  proof (rule ccontr)
    assume "\<not> cur \<le> ts ! k"
    then have lt: "ts ! k < cur" by simp
    then have "k \<in> set ?p" using that(2) by (simp add: in_the_past_set)
    then have ne: "?p \<noteq> []" by auto
    then have "k \<le> last ?p" using that(2) lt by (rule in_the_past_last(3))
    then show False using that(1) ne by (simp add: cursor_value_def)
  qed
  show "ts ! k < cur" if "sorted ts" "k < cursor_value ts cur"
  proof -
    have ne: "?p \<noteq> []" using that(2) by (auto simp add: cursor_value_def)
    then have k: "k \<le> last ?p" using that(2) by (simp add: cursor_value_def)
    have "ts ! k \<le> ts ! last ?p"
      using that(1) k in_the_past_last(1) [OF ne] by (rule sorted_nth_mono)
    then show ?thesis using in_the_past_last(2) [OF ne] by simp
  qed
qed

lemma sorted_timesteps:
  "0 < dt \<Longrightarrow> sorted tms \<Longrightarrow> sorted (map (\<lambda>x. timestep x dt) tms)"
  by (simp add: sorted_map sorted_wrt_mono_rel [of tms "(\<le>)"] timestep_mono)

text \<open>What \<^verbatim>\<open>before_run\<close> leaves of the cursor.\<close>

lemma before_run_aborted:
  "check_period (var_period self) dt = Some e \<Longrightarrow> before_run self t dt = (self, Raised e)"
  by (simp add: before_run_def)

lemma before_run_lastindex:
  assumes "check_period (var_period self) dt = None"
  shows "var_lastindex (fst (before_run self t dt))
           = (if spikes_changed self then var_lastindex (update_lastindex self t dt)
              else var_lastindex self)"
  using assms by (simp add: before_run_def Let_def)
text \<open>
  A run start with the spikes changed: either the period checks raise and nothing is
  touched, or the cursor \<open>c\<close> is set to one past the last event whose timestep is below the
  current one, 0 when there is none: \<open>c \<le> M\<close>, the event before \<open>c\<close> is in the past and no
  event from \<open>c\<close> on is. When the stored times are ascending (and \<open>dt > 0\<close>) every event
  before \<open>c\<close> is in the past.
\<close>

lemma cursor_at_dirty_run_start:
  assumes "spikes_changed self" and "before_run self t dt = (self', r)"
  shows "(\<exists>e. check_period (var_period self) dt = Some e \<and> r = Raised e \<and> self' = self)
       \<or> (check_period (var_period self) dt = None
          \<and> var_lastindex self' \<le> length (self_spike_time self)
          \<and> (var_lastindex self' = 0
               \<or> timestep (self_spike_time self ! (var_lastindex self' - 1)) dt
                   < timestep t dt)
          \<and> (\<forall>k. var_lastindex self' \<le> k \<and> k < length (self_spike_time self)
                 \<longrightarrow> timestep t dt \<le> timestep (self_spike_time self ! k) dt)
          \<and> (0 < dt \<and> sorted (self_spike_time self)
                 \<longrightarrow> (\<forall>k < var_lastindex self'.
                        timestep (self_spike_time self ! k) dt < timestep t dt)))"
proof (cases "check_period (var_period self) dt")
  case (Some e)
  then have "before_run self t dt = (self, Raised e)" by (rule before_run_aborted)
  with assms(2) Some show ?thesis by simp
next
  case None
  define ts where "ts = map (\<lambda>x. timestep x dt) (self_spike_time self)"
  define cur where "cur = timestep t dt"
  define c where "c = var_lastindex self'"
  have len: "length ts = length (self_spike_time self)" by (simp add: ts_def)
  have nth: "ts ! k = timestep (self_spike_time self ! k) dt"
    if "k < length (self_spike_time self)" for k
    using that by (simp add: ts_def)
  have "var_lastindex (fst (before_run self t dt)) = cursor_value ts cur"
    using assms(1) by (simp add: before_run_lastindex [OF None] update_lastindex_cursor
        ts_def cur_def)
  then have c: "c = cursor_value ts cur" using assms(2) by (simp add: c_def)
  have le: "c \<le> length (self_spike_time self)"
    using cursor_value_props(1) [of ts cur] by (simp add: c len)
  have before: "c = 0 \<or> timestep (self_spike_time self ! (c - 1)) dt < cur"
  proof (cases "c = 0")
    case False
    then have "c - 1 < length (self_spike_time self)" using le by simp
    then show ?thesis
      using cursor_value_props(2) [of ts cur] False by (simp add: c [symmetric] nth)
  qed simp
  have after: "cur \<le> timestep (self_spike_time self ! k) dt"
    if "c \<le> k" "k < length (self_spike_time self)" for k
    using cursor_value_props(3) [of ts cur k] that by (simp add: c [symmetric] len nth)
  have first: "timestep (self_spike_time self ! k) dt < cur"
    if "0 < dt" "sorted (self_spike_time self)" "k < c" for k
  proof -
    have "sorted ts" unfolding ts_def using that(1,2) by (rule sorted_timesteps)
    then have "ts ! k < cur"
      using that(3) by (intro cursor_value_props(4)) (simp_all add: c)
    moreover have "k < length (self_spike_time self)" using that(3) le by simp
    ultimately show ?thesis by (simp add: nth)
  qed
  show ?thesis
    using None le before after first unfolding c_def cur_def by blast
qed

text \<open>
  C3. At a run start with the spikes changed that the period checks let through, the
  cursor \<open>c\<close> is within \<open>0 \<le> c \<le> M\<close>; it is 0 or the event before it is in the past, and no
  event from \<open>c\<close> on is in the past (one past the last event whose bin is strictly smaller,
  or 0). On a schedule with ascending times and \<open>dt > 0\<close> it is the index of the first
  event whose bin is at least the current one: the number of leading events in the past,
  all events before \<open>c\<close> being in the past.
\<close>

theorem cursor_is_first_due_event:
  assumes "spikes_changed self" and "check_period (var_period self) dt = None"
    and "before_run self t dt = (self', r)"
  shows "var_lastindex self' \<le> length (self_spike_time self)
       \<and> (var_lastindex self' = 0
            \<or> timestep (self_spike_time self ! (var_lastindex self' - 1)) dt < timestep t dt)
       \<and> (\<forall>k. var_lastindex self' \<le> k \<and> k < length (self_spike_time self)
              \<longrightarrow> timestep t dt \<le> timestep (self_spike_time self ! k) dt)
       \<and> (0 < dt \<and> sorted (self_spike_time self)
              \<longrightarrow> var_lastindex self'
                    = length (takeWhile (\<lambda>x. timestep x dt < timestep t dt)
                                (self_spike_time self))
                  \<and> (\<forall>k < var_lastindex self'.
                        timestep (self_spike_time self ! k) dt < timestep t dt))"
proof -
  define xs where "xs = self_spike_time self"
  define c where "c = var_lastindex self'"
  define P where "P = (\<lambda>x. timestep x dt < timestep t dt)"
  define n where "n = length (takeWhile P xs)"
  have g: "c \<le> length xs"
      "c = 0 \<or> P (xs ! (c - 1))"
      "\<forall>k. c \<le> k \<and> k < length xs \<longrightarrow> \<not> P (xs ! k)"
      "0 < dt \<and> sorted xs \<longrightarrow> (\<forall>k < c. P (xs ! k))"
    using cursor_at_dirty_run_start [OF assms(1,3)] assms(2)
    unfolding xs_def c_def P_def by (auto simp add: not_less)
  have "c = n" if s: "0 < dt \<and> sorted xs"
  proof (rule ccontr)
    assume "c \<noteq> n"
    then consider "c < n" | "n < c" by linarith
    then show False
    proof cases
      case 1
      have nl: "n \<le> length xs" unfolding n_def by (rule length_takeWhile_le)
      have "takeWhile P xs ! c \<in> set (takeWhile P xs)"
        using 1 unfolding n_def by (rule nth_mem)
      then have "P (takeWhile P xs ! c)" by (rule set_takeWhileD [THEN conjunct2])
      moreover have "takeWhile P xs ! c = xs ! c"
        using 1 unfolding n_def by (rule takeWhile_nth)
      ultimately have "P (xs ! c)" by simp
      moreover have "\<not> P (xs ! c)" using g(3) 1 nl by simp
      ultimately show False by simp
    next
      case 2
      then have "n < length xs" using g(1) by simp
      then have "\<not> P (xs ! n)" unfolding n_def by (rule nth_length_takeWhile)
      moreover have "P (xs ! n)" using g(4) s 2 by simp
      ultimately show False by simp
    qed
  qed
  with g show ?thesis
    unfolding xs_def c_def P_def n_def by (auto simp add: not_less)
qed

text \<open>
  The run starts at 10 ms with \<open>dt\<close> = 1 ms and the only spike is at 2 ms: it is skipped, the
  cursor is 1.
\<close>

theorem cursor_is_first_due_event_witness:
  "var_lastindex (fst (before_run g_past (10 / 1000) (1 / 1000))) = 1"
proof -
  define s' where "s' = fst (before_run g_past (10 / 1000) (1 / 1000))"
  define r where "r = snd (before_run g_past (10 / 1000) (1 / 1000))"
  have dirty: "spikes_changed g_past" by (simp add: g_past_def g0_def)
  have run: "before_run g_past (10 / 1000) (1 / 1000) = (s', r)" by (simp add: s'_def r_def)
  have ok: "check_period (var_period g_past) (1 / 1000) = None"
    by (simp add: check_period_def g_past_def g0_def)
  have asc: "(0::real) < 1 / 1000 \<and> sorted (self_spike_time g_past)"
    by (simp add: g_past_def g0_def)
  have "var_lastindex s'
          = length (takeWhile (\<lambda>x. timestep x (1 / 1000) < timestep (10 / 1000) (1 / 1000))
                      (self_spike_time g_past))"
    using cursor_is_first_due_event [OF dirty ok run] asc by blast
  also have "\<dots> = 1" by (simp add: g_past_def g0_def timestep_def)
  finally show ?thesis unfolding s'_def .
qed

text \<open>
  The premise on the order of the times is needed. \<^verbatim>\<open>sorted=True\<close> stores the times as
  given; with 0.5 s before 0.1 s and a run start at 0.3 s, \<open>dt\<close> = 0.1 s, the cursor is 2,
  one past the spike at 0.1 s, while the event at index 0 is not in the past.
\<close>

lemma cursor_of_unsorted_times:
  "set_spikes g0 [0, 0] [5 / 10, 1 / 10] (Finite_period (10 ^ 100)) True
     = (g_unsorted, Returned ())
   \<and> spikes_changed g_unsorted
   \<and> snd (before_run g_unsorted (3 / 10) (1 / 10)) = Returned ()
   \<and> var_lastindex (fst (before_run g_unsorted (3 / 10) (1 / 10))) = 2
   \<and> timestep (3 / 10) (1 / 10) \<le> timestep (self_spike_time g_unsorted ! 0) (1 / 10)"
proof (intro conjI)
  show "set_spikes g0 [0, 0] [5 / 10, 1 / 10] (Finite_period (10 ^ 100)) True
     = (g_unsorted, Returned ())"
    by (simp add: set_spikes_def check_args_def g_unsorted_def g0_def amax_def amin_def
        Let_def)
  have run: "before_run g_unsorted (3 / 10) (1 / 10)
      = (g_unsorted\<lparr>warnings := 1, var_lastindex := 2, previous_dt := Some (1 / 10),
                     spikes_changed := False\<rparr>, Returned ())"
    by (simp add: before_run_def check_period_def update_lastindex_def in_the_past_def
        timestep_def spikes_collide_def timebins_def astype_int32_def trunc_def
        diff_is_zero_def g_unsorted_def g0_def Let_def)
  show "snd (before_run g_unsorted (3 / 10) (1 / 10)) = Returned ()"
    by (simp add: run)
  show "var_lastindex (fst (before_run g_unsorted (3 / 10) (1 / 10))) = 2"
    by (simp add: run)
qed (simp_all add: g_unsorted_def g0_def timestep_def)

subsection \<open>The dirty flag and the last checked timestep\<close>

lemma update_lastindex_fields:
  "spikes_changed (update_lastindex self t dt) = spikes_changed self"
  "previous_dt (update_lastindex self t dt) = previous_dt self"
  "self_spike_time (update_lastindex self t dt) = self_spike_time self"
  "self_neuron_index (update_lastindex self t dt) = self_neuron_index self"
  "var_spike_time (update_lastindex self t dt) = var_spike_time self"
  "var_period (update_lastindex self t dt) = var_period self"
  by (simp_all add: update_lastindex_def Let_def)

text \<open>The run start that the period checks let through, case by case.\<close>

lemma before_run_checked:
  assumes "check_period (var_period self) dt = None"
    and "spikes_changed self \<or> previous_dt self \<noteq> Some dt"
  shows "before_run self t dt =
     (let self1 = (if spikes_changed self then update_lastindex self t dt else self)
      in if spikes_collide (self_spike_time self) (self_neuron_index self) dt
         then (self1, Raised SpikeCollision)
         else (self1\<lparr>previous_dt := Some dt, spikes_changed := False\<rparr>, Returned ()))"
  using assms by (auto simp add: before_run_def Let_def update_lastindex_fields)

lemma before_run_unchecked:
  assumes "check_period (var_period self) dt = None"
    and "\<not> spikes_changed self" and "previous_dt self = Some dt"
  shows "before_run self t dt = (self, Returned ())"
  using assms by (simp add: before_run_def Let_def)

lemma check_args_returned:
  assumes "check_args self indices tms period N b = (self', Returned (indices', tms'))"
  shows "length indices' = length tms'"
    and "self' = self\<lparr>self_neuron_index := indices', self_spike_time := tms',
                      spikes_changed := True\<rparr>"
proof -
  have len: "length indices = length tms"
    using assms by (simp add: check_args_def Let_def split: if_splits)
  show "length indices' = length tms'"
  proof (cases b)
    case True
    then show ?thesis
      using assms check_args_returned_sorted(1,2) [of self indices tms period N] len
      by simp
  next
    case False
    then show ?thesis
      using assms check_args_returned_unsorted(2,3) [of self indices tms period N] by simp
  qed
  show "self' = self\<lparr>self_neuron_index := indices', self_spike_time := tms',
                      spikes_changed := True\<rparr>"
    using assms by (auto simp add: check_args_def Let_def split: if_splits)
qed

lemma set_spikes_returned:
  assumes "set_spikes self indices tms period b = (self', Returned u)"
  shows "spikes_changed self'" and "previous_dt self' = previous_dt self"
    and "self_spike_time self' = var_spike_time self'"
    and "length (self_neuron_index self') = length (self_spike_time self')"
    and "var_lastindex self' = var_lastindex self"
proof -
  obtain s1 indices' tms'
    where c: "check_args self indices tms period (var_N self) b
                = (s1, Returned (indices', tms'))"
      and s: "self' = s1\<lparr>var_period := period, var_spike_number := [0..<length indices'],
                         var_neuron_index := indices', var_spike_time := tms'\<rparr>"
    using assms by (auto simp add: set_spikes_def split: prod.splits outcome.splits)
  note r = check_args_returned [OF c]
  show "spikes_changed self'" and "previous_dt self' = previous_dt self"
    and "self_spike_time self' = var_spike_time self'"
    and "length (self_neuron_index self') = length (self_spike_time self')"
    and "var_lastindex self' = var_lastindex self"
    by (simp_all add: s r)
qed

lemma sgg_init_returned:
  assumes "sgg_init N indices tms period b = Returned self"
  shows "spikes_changed self" and "previous_dt self = None"
    and "self_spike_time self = var_spike_time self"
    and "length (self_neuron_index self) = length (self_spike_time self)"
    and "var_lastindex self = 0"
proof -
  obtain s0 s1 indices' tms'
    where c: "check_args s0 indices tms period N b = (s1, Returned (indices', tms'))"
      and s: "self = s1\<lparr>var_N := N, var_spike_number := [0..<length indices'],
                         var_neuron_index := indices', var_spike_time := tms',
                         var_lastindex := 0, previous_dt := None, var_period := period\<rparr>"
    using assms
    by (auto simp add: sgg_init_def Let_def split: if_splits prod.splits outcome.splits)
  note r = check_args_returned [OF c]
  show "spikes_changed self" and "previous_dt self = None"
    and "self_spike_time self = var_spike_time self"
    and "length (self_neuron_index self) = length (self_spike_time self)"
    and "var_lastindex self = 0"
    by (simp_all add: s r)
qed

text \<open>
  C5. The constructor and every \<^verbatim>\<open>set_spikes\<close> that returns leave the dirty flag set. At a
  run start that the period checks let through, the collision check runs exactly when the
  flag is set or \<open>dt\<close> is not the last checked timestep: if it finds a collision the run
  start raises and flag and last checked timestep stay as they were; otherwise the flag is
  cleared and \<open>dt\<close> becomes the last checked timestep. When the check does not run, both
  stay. If the period checks raise, nothing is touched. So the flag is cleared only by a
  run start whose collision check passed at \<open>dt\<close>.
\<close>

theorem dirty_flag_protocol:
  "(sgg_init N indices tms period b = Returned s_new
      \<longrightarrow> spikes_changed s_new \<and> previous_dt s_new = None)
   \<and> (set_spikes self indices tms period b = (s_set, Returned ())
      \<longrightarrow> spikes_changed s_set \<and> previous_dt s_set = previous_dt self)
   \<and> (check_period (var_period self) dt = Some e
      \<longrightarrow> before_run self t dt = (self, Raised e))
   \<and> (check_period (var_period self) dt = None \<and> before_run self t dt = (s_run, r)
      \<longrightarrow> (if spikes_changed self \<or> previous_dt self \<noteq> Some dt
           then (if spikes_collide (self_spike_time self) (self_neuron_index self) dt
                 then r = Raised SpikeCollision
                      \<and> spikes_changed s_run = spikes_changed self
                      \<and> previous_dt s_run = previous_dt self
                 else r = Returned () \<and> \<not> spikes_changed s_run \<and> previous_dt s_run = Some dt)
           else r = Returned () \<and> s_run = self))
   \<and> (before_run self t dt = (s_run, r) \<and> spikes_changed self \<and> \<not> spikes_changed s_run
      \<longrightarrow> r = Returned () \<and> previous_dt s_run = Some dt
          \<and> check_period (var_period self) dt = None
          \<and> \<not> spikes_collide (self_spike_time self) (self_neuron_index self) dt)"
proof (intro conjI impI)
  assume "sgg_init N indices tms period b = Returned s_new"
  then show "spikes_changed s_new" and "previous_dt s_new = None"
    by (rule sgg_init_returned)+
next
  assume "set_spikes self indices tms period b = (s_set, Returned ())"
  then show "spikes_changed s_set" and "previous_dt s_set = previous_dt self"
    by (rule set_spikes_returned)+
next
  assume "check_period (var_period self) dt = Some e"
  then show "before_run self t dt = (self, Raised e)" by (rule before_run_aborted)
next
  assume a: "check_period (var_period self) dt = None \<and> before_run self t dt = (s_run, r)"
  show "if spikes_changed self \<or> previous_dt self \<noteq> Some dt
           then (if spikes_collide (self_spike_time self) (self_neuron_index self) dt
                 then r = Raised SpikeCollision
                      \<and> spikes_changed s_run = spikes_changed self
                      \<and> previous_dt s_run = previous_dt self
                 else r = Returned () \<and> \<not> spikes_changed s_run \<and> previous_dt s_run = Some dt)
           else r = Returned () \<and> s_run = self"
  proof (cases "spikes_changed self \<or> previous_dt self \<noteq> Some dt")
    case True
    from a have "before_run self t dt = (s_run, r)" by simp
    then show ?thesis
      unfolding before_run_checked [OF conjunct1 [OF a] True]
      using True by (auto simp add: Let_def update_lastindex_fields split: if_splits)
  next
    case False
    then have "before_run self t dt = (self, Returned ())"
      using a by (intro before_run_unchecked) simp_all
    with a False show ?thesis by simp
  qed
next
  assume a: "before_run self t dt = (s_run, r) \<and> spikes_changed self \<and> \<not> spikes_changed s_run"
  have ok: "check_period (var_period self) dt = None"
  proof (cases "check_period (var_period self) dt")
    case (Some e)
    then have "before_run self t dt = (self, Raised e)" by (rule before_run_aborted)
    with a show ?thesis by auto
  qed simp
  have run: "before_run self t dt =
     (let self1 = (if spikes_changed self then update_lastindex self t dt else self)
      in if spikes_collide (self_spike_time self) (self_neuron_index self) dt
         then (self1, Raised SpikeCollision)
         else (self1\<lparr>previous_dt := Some dt, spikes_changed := False\<rparr>, Returned ()))"
    using ok a by (intro before_run_checked) simp_all
  have nc: "\<not> spikes_collide (self_spike_time self) (self_neuron_index self) dt"
  proof
    assume "spikes_collide (self_spike_time self) (self_neuron_index self) dt"
    then have "s_run = update_lastindex self t dt" using run a by (simp add: Let_def)
    then show False using a by (simp add: update_lastindex_fields)
  qed
  show "r = Returned ()" and "previous_dt s_run = Some dt"
    using run a nc by (auto simp add: Let_def)
  show "check_period (var_period self) dt = None" by (rule ok)
  show "\<not> spikes_collide (self_spike_time self) (self_neuron_index self) dt" by (rule nc)
qed

text \<open>
  The construction of \<open>g_two\<close> sets the flag; its run start at \<open>dt\<close> = 1 ms finds the
  collision and leaves the flag set and no timestep recorded; at \<open>dt\<close> = 0.1 ms the two
  spikes are in bins 5 and 7, and the run start clears the flag and records \<open>dt\<close>.
\<close>

theorem dirty_flag_protocol_witness:
  "spikes_changed g_two \<and> previous_dt g_two = None
   \<and> before_run g_two 0 (1 / 1000) = (g_two, Raised SpikeCollision)
   \<and> snd (before_run g_two 0 (1 / 10000)) = Returned ()
   \<and> \<not> spikes_changed (fst (before_run g_two 0 (1 / 10000)))
   \<and> previous_dt (fst (before_run g_two 0 (1 / 10000))) = Some (1 / 10000)"
proof -
  have init: "sgg_init 2 [0, 0] [5 / 10000, 7 / 10000] (Finite_period (10 ^ 100)) False
       = Returned g_two"
    by (simp add: sgg_init_def check_args_def g_two_def amax_def amin_def lexsort_def
        take_at_def less_eq_prod_def Let_def)
  have ok: "check_period (var_period g_two) dt = None" if "dt \<le> 1" for dt
    using that by (simp add: check_period_def g_two_def)
  have c1: "spikes_collide (self_spike_time g_two) (self_neuron_index g_two) (1 / 1000)"
    by (simp add: spikes_collide_def timebins_def astype_int32_def trunc_def
        diff_is_zero_def g_two_def)
  have c2: "\<not> spikes_collide (self_spike_time g_two) (self_neuron_index g_two) (1 / 10000)"
    by (simp add: spikes_collide_def timebins_def astype_int32_def trunc_def
        diff_is_zero_def g_two_def)
  obtain s r where run1: "before_run g_two 0 (1 / 1000) = (s, r)"
    by (cases "before_run g_two 0 (1 / 1000)")
  obtain s' r' where run2: "before_run g_two 0 (1 / 10000) = (s', r')"
    by (cases "before_run g_two 0 (1 / 10000)")
  have flag: "spikes_changed g_two \<and> previous_dt g_two = None"
    using dirty_flag_protocol [where N = 2 and indices = "[0, 0]"
        and tms = "[5 / 10000, 7 / 10000]" and period = "Finite_period (10 ^ 100)"
        and b = False and s_new = g_two] init
    by blast
  have "r = Raised SpikeCollision"
    using dirty_flag_protocol [where self = g_two and dt = "1 / 1000" and t = 0
        and s_run = s and r = r]
      ok [of "1 / 1000"] run1 c1 flag
    by simp
  moreover have "s = g_two"
    using run1 flag ok [of "1 / 1000"] c1
    by (simp add: before_run_def Let_def update_lastindex_def in_the_past_def timestep_def
        g_two_def)
  moreover have "r' = Returned () \<and> \<not> spikes_changed s' \<and> previous_dt s' = Some (1 / 10000)"
    using dirty_flag_protocol [where self = g_two and dt = "1 / 10000" and t = 0
        and s_run = s' and r = r']
      ok [of "1 / 10000"] run2 c2 flag
    by simp
  ultimately show ?thesis using flag run1 run2 by simp
qed

subsection \<open>The empty schedule\<close>

lemma before_run_arrays:
  assumes "before_run self t dt = (self', r)"
  shows "self_spike_time self' = self_spike_time self"
    and "self_neuron_index self' = self_neuron_index self"
    and "var_spike_time self' = var_spike_time self"
  using assms
  by (auto simp add: before_run_def Let_def update_lastindex_fields
      split: option.splits if_splits)

lemma spikes_collide_empty: "\<not> spikes_collide [] neuron_index dt"
  by (simp add: spikes_collide_def timebins_def diff_is_zero_def)

lemma update_lastindex_empty:
  "self_spike_time self = [] \<Longrightarrow> update_lastindex self t dt = self\<lparr>var_lastindex := 0\<rparr>"
  by (simp add: update_lastindex_def in_the_past_def)

text \<open>The run start on an empty schedule: either the period checks raise, or it returns.\<close>

lemma before_run_empty:
  assumes "self_spike_time self = []"
  shows "before_run self t dt =
    (case check_period (var_period self) dt of
       Some e \<Rightarrow> (self, Raised e)
     | None \<Rightarrow>
         if spikes_changed self
         then (self\<lparr>var_lastindex := 0, previous_dt := Some dt, spikes_changed := False\<rparr>,
               Returned ())
         else if previous_dt self = Some dt then (self, Returned ())
         else (self\<lparr>previous_dt := Some dt, spikes_changed := False\<rparr>, Returned ()))"
  using assms
  by (auto simp add: before_run_def Let_def update_lastindex_empty spikes_collide_empty
      split: option.splits)

text \<open>
  In every object a program can hold the attributes and the arrays of the runtime agree,
  and an empty schedule that is not dirty has its cursor at 0.
\<close>

lemma reachable_invariant:
  assumes "reachable self"
  shows "self_spike_time self = var_spike_time self
       \<and> length (self_neuron_index self) = length (self_spike_time self)
       \<and> (\<not> spikes_changed self \<and> self_spike_time self = [] \<longrightarrow> var_lastindex self = 0)"
  using assms
proof (induction rule: reachable.induct)
  case (constructed N indices tms period is_sorted self)
  note r = sgg_init_returned [OF constructed]
  show ?case by (simp add: r)
next
  case (replaced self indices tms period is_sorted self' r)
  show ?case
  proof (cases r)
    case (Raised e)
    then have "check_args self indices tms period (var_N self) is_sorted = (self', Raised e)"
      using replaced.hyps(2) by (intro set_spikes_raised) simp
    then have "self' = self" by (rule check_args_raised_same)
    then show ?thesis using replaced.IH by simp
  next
    case (Returned u)
    then have "set_spikes self indices tms period is_sorted = (self', Returned u)"
      using replaced.hyps(2) by simp
    note r = set_spikes_returned [OF this]
    show ?thesis by (simp add: r(1,3,4))
  qed
next
  case (run_started self dt t self' r)
  note arr = before_run_arrays [OF run_started.hyps(3)]
  have eq: "self_spike_time self' = var_spike_time self'"
    and len: "length (self_neuron_index self') = length (self_spike_time self')"
    using run_started.IH by (simp_all add: arr)
  have "var_lastindex self' = 0" if e: "self_spike_time self' = []" and c: "\<not> spikes_changed self'"
  proof -
    have e0: "self_spike_time self = []" using e by (simp add: arr)
    show ?thesis
      using run_started.hyps(3) run_started.IH c e0
      unfolding before_run_empty [OF e0]
      by (auto split: option.splits if_splits)
  qed
  with eq len show ?case by blast
next
  case (stepped self c)
  then show ?case by auto
qed

text \<open>
  C10. On an object a program can hold, with no events stored and \<open>dt > 0\<close>, the run start
  never raises the collision error and never warns; it returns exactly when the period
  checks pass, and then the cursor is 0; every error it raises is a PeriodAlignmentError of
  the period checks, which leaves the object untouched.
\<close>

theorem empty_schedule_run_start:
  assumes "reachable self" and "var_spike_time self = []" and "0 < dt"
    and "before_run self t dt = (self', r)"
  shows "r \<noteq> Raised SpikeCollision
       \<and> warnings self' = warnings self
       \<and> (r = Returned () \<longleftrightarrow> check_period (var_period self) dt = None)
       \<and> (r = Returned () \<longrightarrow> var_lastindex self' = 0)
       \<and> (\<forall>e. r = Raised e \<longrightarrow> spec_class e = PeriodAlignmentError
                \<and> check_period (var_period self) dt = Some e \<and> self' = self)"
proof -
  note inv = reachable_invariant [OF assms(1)]
  have e0: "self_spike_time self = []" using inv assms(2) by simp
  have cls: "spec_class e = PeriodAlignmentError"
    if "check_period (var_period self) dt = Some e" for e
    using assms(3) that by (rule check_period_class)
  have run: "(self', r) =
    (case check_period (var_period self) dt of
       Some e \<Rightarrow> (self, Raised e)
     | None \<Rightarrow>
         if spikes_changed self
         then (self\<lparr>var_lastindex := 0, previous_dt := Some dt, spikes_changed := False\<rparr>,
               Returned ())
         else if previous_dt self = Some dt then (self, Returned ())
         else (self\<lparr>previous_dt := Some dt, spikes_changed := False\<rparr>, Returned ()))"
    using assms(4) before_run_empty [OF e0, of t dt] by simp
  show ?thesis
  proof (cases "check_period (var_period self) dt")
    case (Some e)
    with run have "self' = self" and "r = Raised e" by simp_all
    then show ?thesis using Some cls check_period_not_collision [of "var_period self" dt]
      by auto
  next
    case None
    have z: "var_lastindex self = 0" if "\<not> spikes_changed self"
      using inv e0 that by simp
    from run None show ?thesis
      by (cases "spikes_changed self"; cases "previous_dt self = Some dt") (simp_all add: z)
  qed
qed

text \<open>
  The group built without spikes: its run start at \<open>dt\<close> = 1 ms returns with the cursor at
  0 and without a warning.
\<close>

theorem empty_schedule_run_start_witness:
  "reachable g_empty
   \<and> snd (before_run g_empty 0 (1 / 1000)) = Returned ()
   \<and> var_lastindex (fst (before_run g_empty 0 (1 / 1000))) = 0
   \<and> warnings (fst (before_run g_empty 0 (1 / 1000))) = 0"
proof -
  have "sgg_init 2 [] [] (Finite_period (10 ^ 100)) False = Returned g_empty"
    by (simp add: sgg_init_def check_args_def g_empty_def lexsort_def take_at_def Let_def)
  then have re: "reachable g_empty" by (rule reachable.constructed)
  have e: "var_spike_time g_empty = []" by (simp add: g_empty_def)
  have ok: "check_period (var_period g_empty) (1 / 1000) = None"
    by (simp add: check_period_def g_empty_def)
  obtain s r where run: "before_run g_empty 0 (1 / 1000) = (s, r)"
    by (cases "before_run g_empty 0 (1 / 1000)")
  have w: "warnings g_empty = 0" by (simp add: g_empty_def)
  show ?thesis
    using empty_schedule_run_start [OF re e _ run] ok re w by (simp add: run)
qed

end
